theory Spec2Isabelle
  imports Complex_Main "HOL-Library.Char_ord" "HOL-Library.List_Lexorder" "HOL-Library.Log_Nat"
begin

section \<open>The member aggregation hook \<open>useDaoMembers\<close> (src/hooks/useDaoMembers.tsx)\<close>

text \<open>
  The hook is a pure function of its three arguments and of what the hooks it calls
  return. The hooks it calls are collaborators outside the file; they are the fields of
  the record \<open>Hooks\<close>, each a function of the arguments the source passes to it, and every
  theorem quantifies over all of them.

  Conventions of the embedding:
  \<^item> a value that may be \<open>undefined\<close> or \<open>null\<close> is an \<open>option\<close>;
  \<^item> a JavaScript \<open>number\<close> holding a token amount is the \<open>rat\<close> that the double denotes:
    \<open>Number(formatUnits(..))\<close> is the decimal quotient rounded to the nearest double, ties
    to even. Counts are \<open>nat\<close>;
  \<^item> strings are \<open>char list\<close>; addresses are ASCII (hexadecimal) strings, for which the
    code-unit order of JavaScript's greater-than is the lexicographic order on \<open>char list\<close> and
    \<open>toLowerCase\<close> maps \<open>A..Z\<close> to \<open>a..z\<close>;
  \<^item> the only exception the body itself can raise on well-typed collaborator data is the
    \<open>TypeError\<close> of \<open>member.address.toLowerCase()\<close> on an \<open>undefined\<close> address (the casts
    \<open>address as string\<close> do nothing at run time); the result type is \<open>error + _\<close>.
\<close>

subsection \<open>Data model\<close>

datatype error = TypeError

text \<open>
  \<open>MultisigDaoMember = {address}\<close>, \<open>TokenDaoMember = MultisigDaoMember & {balance,
  votingPower, delegatee, delegators}\<close>. The fields \<open>address\<close> and \<open>delegatee\<close> are
  \<open>string\<close> in the type, and \<open>string option\<close> here because the fallback member is built
  with \<open>address as string\<close> from the wallet's \<open>string | null\<close>.
\<close>

datatype DaoMember =
    MultisigDaoMember (address: "string option")
  | TokenDaoMember (address: "string option") (balance: rat) (votingPower: rat)
      (delegatee: "string option") (delegators: "string list")

datatype DaoMemberSort = Delegations | VotingPower

record Erc20TokenDetails =
  token_address :: string
  decimals :: nat

record DaoMembersData =
  members :: "DaoMember list"
  memberCount :: nat
  filteredMembers :: "DaoMember list"
  daoToken :: "Erc20TokenDetails option"

text \<open>\<open>HookData<T>\<close>; a query result is a \<open>HookData\<close> whose data may be undefined.\<close>

record 'a HookData =
  data :: 'a
  isLoading :: bool
  isError :: bool

text \<open>
  \<open>DaoMembersOptions\<close>: every field is optional. The fields carry the prefix \<open>opt_\<close>, the
  plain names being those of the hook's local constants.
\<close>

record DaoMembersOptions =
  opt_searchTerm :: "string option"
  opt_sort :: "DaoMemberSort option"
  opt_page :: "nat option"
  opt_countOnly :: "bool option"
  opt_memberList :: "string list option"
  opt_enabled :: "bool option"

text \<open>
  Modelled from the spec: \<open>PluginTypes\<close> and \<open>GaslessPluginName\<close> are declared in
  \<open>usePluginClient\<close>, which is not among the sources; the spec gives a closed set of
  plugin-type tags with a token-voting tag, a gasless tag and multisig-style plugins.
\<close>

datatype PluginTypes = TokenVoting | Multisig | Gasless

definition GaslessPluginName :: PluginTypes where
  "GaslessPluginName = Gasless"

text \<open>A holder record of the graph-index service: \<open>{address, balance, votes, delegates}\<close>.\<close>

record Holder =
  holder_address :: string
  holder_balance :: nat
  votes :: nat
  delegates :: string

text \<open>\<open>graphqlData.holders = {holders, totalHolders}\<close>.\<close>

record TokenHolders =
  holders :: "Holder list"
  totalHolders :: nat

text \<open>
  \<open>TokenVotingMember\<close> of the SDK; a delegator is \<open>{address, balance}\<close>, here a pair.
\<close>

record TokenVotingMember =
  tvm_address :: string
  tvm_balance :: nat
  tvm_votingPower :: nat
  tvm_delegatee :: "string option"
  tvm_delegators :: "(string \<times> nat) list"

datatype SdkMember = AddressString string | VotingMember TokenVotingMember

record Census3Params =
  c3_holders :: "DaoMember list"
  c3_pluginAddress :: string
  c3_pluginType :: "PluginTypes option"
  c3_options :: DaoMembersOptions

text \<open>
  The collaborators. \<open>useTokenHolders\<close> takes \<open>network\<close>, \<open>tokenAddress\<close>, \<open>page\<close> and its
  \<open>enabled\<close> flag; \<open>useMembers\<close> takes \<open>pluginAddress\<close>, \<open>pluginType\<close> and its \<open>enabled\<close>
  flag; \<open>balanceOf\<close> is the on-chain read behind \<open>useReadContracts\<close>, by token address and
  wallet address, \<open>None\<close> while it is pending or when it failed.
\<close>

record Hooks =
  useNetwork :: string
  useWallet :: "string option"
  useDaoToken :: "string \<Rightarrow> Erc20TokenDetails option"
  useTokenHolders :: "string \<Rightarrow> string option \<Rightarrow> nat option \<Rightarrow> bool \<Rightarrow> TokenHolders option HookData"
  useMembers :: "string \<Rightarrow> PluginTypes option \<Rightarrow> bool \<Rightarrow> SdkMember list option HookData"
  useCensus3DaoMembers :: "Census3Params \<Rightarrow> DaoMembersData HookData"
  balanceOf :: "string \<Rightarrow> string \<Rightarrow> nat option"

subsection \<open>Strings and numbers of the run time\<close>

definition toLowerCase_char :: "char \<Rightarrow> char" where
  "toLowerCase_char c =
     (let n = (of_char c :: nat) in if 65 \<le> n \<and> n \<le> 90 then char_of (n + 32) else c)"

definition toLowerCase :: "string \<Rightarrow> string" where
  "toLowerCase s = map toLowerCase_char s"

text \<open>\<open>hay.includes(needle)\<close>: \<open>needle\<close> occurs in \<open>hay\<close> as a contiguous run.\<close>

fun starts_with :: "string \<Rightarrow> string \<Rightarrow> bool" where
  "starts_with hay [] = True"
| "starts_with [] (c # cs) = False"
| "starts_with (h # hs) (c # cs) = (h = c \<and> starts_with hs cs)"

fun includes_str :: "string \<Rightarrow> string \<Rightarrow> bool" where
  "includes_str [] needle = (needle = [])"
| "includes_str (h # hs) needle = (starts_with (h # hs) needle \<or> includes_str hs needle)"

text \<open>\<open>x > y\<close> on two values that may be undefined: false unless both are strings.\<close>

definition js_gt :: "string option \<Rightarrow> string option \<Rightarrow> bool" where
  "js_gt x y = (case x of None \<Rightarrow> False
                | Some s \<Rightarrow> (case y of None \<Rightarrow> False | Some t \<Rightarrow> s > t))"

text \<open>
  \<open>Number(s)\<close> on the decimal string of the quotient \<open>p / q\<close>: the double nearest to it,
  ties to the even significand. \<open>ilog2 p q\<close> is the binary exponent of the quotient, the
  integer \<open>k\<close> with \<open>2 ^ k \<le> p / q < 2 ^ (k + 1)\<close>; the significand has 53 bits, and the
  exponent of its last place is never below -1074 (subnormal numbers). The quotients
  of the hook are below \<open>2 ^ 256\<close>, so the overflow to \<open>Infinity\<close> is not modelled.
\<close>

definition round_half_even :: "int \<Rightarrow> int \<Rightarrow> int" where
  "round_half_even n d =
     (let f = n div d; r = n mod d
      in if 2 * r < d then f else if d < 2 * r then f + 1 else if even f then f else f + 1)"

definition ilog2 :: "nat \<Rightarrow> nat \<Rightarrow> int" where
  "ilog2 p q =
     (let k = bitlen (int p) - bitlen (int q)
      in if 2 powi k \<le> (of_nat p / of_nat q :: rat) then k else k - 1)"

definition Number :: "nat \<Rightarrow> nat \<Rightarrow> rat" where
  "Number p q =
     (if p = 0 then 0
      else (let e = max (ilog2 p q - 52) (- 1074);
                m = (if 0 \<le> e then round_half_even (int p) (int q * 2 ^ nat e)
                     else round_half_even (int p * 2 ^ nat (- e)) (int q))
            in of_int m * 2 powi e))"

text \<open>
  \<open>Number(formatUnits(value, unitName))\<close>, \<open>formatUnits\<close> of ethers: the string of the value
  divided by ten to the number of decimals, eighteen when \<open>unitName\<close> is undefined, read
  back as a number. The value is a \<open>uint256\<close> and the number of decimals that of an ERC-20
  token (a \<open>uint8\<close>), for which \<open>formatUnits\<close> does not throw.
\<close>

definition formatUnits :: "nat \<Rightarrow> nat option \<Rightarrow> rat" where
  "formatUnits v unitName = Number v (10 ^ (case unitName of None \<Rightarrow> 18 | Some d \<Rightarrow> d))"

text \<open>
  \<open>Array.prototype.sort(compareFn)\<close>: a stable sort, \<open>a\<close> staying before \<open>b\<close> unless
  \<open>compareFn(a, b) > 0\<close>. The language leaves the order implementation-defined when the
  comparator is not consistent, and the engines then differ from one another (they need
  not pass the earlier element first). The model is the stable insertion sort, which is
  what every conforming engine computes when the comparator is consistent; what is proved
  about the order of a sorted list is proved for lists on which it is.
\<close>

fun insert_by :: "('a \<Rightarrow> 'a \<Rightarrow> rat) \<Rightarrow> 'a \<Rightarrow> 'a list \<Rightarrow> 'a list" where
  "insert_by cmp x [] = [x]"
| "insert_by cmp x (y # ys) = (if cmp x y \<le> 0 then x # y # ys else y # insert_by cmp x ys)"

definition sort_by :: "('a \<Rightarrow> 'a \<Rightarrow> rat) \<Rightarrow> 'a list \<Rightarrow> 'a list" where
  "sort_by cmp xs = foldr (insert_by cmp) xs []"

subsection \<open>The comparator\<close>

definition compareAddresses :: "string option \<Rightarrow> string option \<Rightarrow> bool" where
  "compareAddresses addressA addressB =
     (map_option toLowerCase addressA = map_option toLowerCase addressB)"

fun isTokenDaoMember :: "DaoMember \<Rightarrow> bool" where
  "isTokenDaoMember (MultisigDaoMember a) = False"
| "isTokenDaoMember (TokenDaoMember a bal vp d ds) = True"

definition sortDaoMembers ::
  "DaoMemberSort option \<Rightarrow> string option \<Rightarrow> DaoMember \<Rightarrow> DaoMember \<Rightarrow> rat" where
  "sortDaoMembers srt userAddress a b =
     (let isConnectedUserA = compareAddresses (address a) userAddress;
          isConnectedUserB = compareAddresses (address b) userAddress
      in if isConnectedUserA \<or> isConnectedUserB then (if isConnectedUserA then - 1 else 1)
         else if isTokenDaoMember a \<and> isTokenDaoMember b then
           (let isDelegatorA =
                  list_ex (\<lambda>delegator. compareAddresses (Some delegator) userAddress) (delegators a);
                isDelegatorB =
                  list_ex (\<lambda>delegator. compareAddresses (Some delegator) userAddress) (delegators b)
            in if isDelegatorA \<or> isDelegatorB then (if isDelegatorA then - 1 else 1)
               else
                 (let delegatorsResult =
                        (of_int (int (length (delegators b)) - int (length (delegators a))) :: rat);
                      votingPowerResult = votingPower b - votingPower a
                  in if srt = Some Delegations
                     then (if delegatorsResult = 0 then votingPowerResult else delegatorsResult)
                     else votingPowerResult))
         else (if js_gt (address a) (address b) then 1 else - 1))"

subsection \<open>Normalisation\<close>

fun sdkToDaoMember :: "SdkMember \<Rightarrow> nat option \<Rightarrow> DaoMember" where
  "sdkToDaoMember (AddressString member) tokenDecimals = MultisigDaoMember (Some member)"
| "sdkToDaoMember (VotingMember member) tokenDecimals =
     (let d = (case tokenDecimals of None \<Rightarrow> 0 | Some n \<Rightarrow> n)
      in TokenDaoMember (Some (tvm_address member))
           (formatUnits (tvm_balance member) (Some d))
           (formatUnits (tvm_votingPower member) (Some d))
           (Some (case tvm_delegatee member of None \<Rightarrow> tvm_address member | Some x \<Rightarrow> x))
           (map fst (tvm_delegators member)))"

text \<open>The constant \<open>parsedGraphqlData\<close> of the hook, from \<open>graphqlData\<close> and \<open>daoToken\<close>.\<close>

definition parsedGraphqlData ::
  "TokenHolders option \<Rightarrow> Erc20TokenDetails option \<Rightarrow> DaoMember list" where
  "parsedGraphqlData graphqlData tok =
     (case graphqlData of None \<Rightarrow> []
      | Some g \<Rightarrow>
          map (\<lambda>member.
                 (let tokenDecimals = map_option decimals tok;
                      dels = map holder_address
                               (filter (\<lambda>holder.
                                   \<not> compareAddresses (Some (holder_address holder))
                                        (Some (holder_address member)) \<and>
                                   compareAddresses (Some (delegates holder))
                                        (Some (holder_address member)))
                                 (holders g))
                  in TokenDaoMember (Some (holder_address member))
                       (formatUnits (holder_balance member) tokenDecimals)
                       (formatUnits (votes member) tokenDecimals)
                       (Some (delegates member))
                       dels))
              (holders g))"

subsection \<open>The local constants of the hook\<close>

text \<open>
  Each \<open>const\<close> of the body of \<open>useDaoMembers\<close> is a definition in the hook's arguments
  (\<open>h\<close> for what the collaborators return), in the order of the source.
\<close>

text \<open>\<open>x || d\<close> on an optional boolean: \<open>x\<close> when it is truthy, else \<open>d\<close>.\<close>

definition js_or :: "bool option \<Rightarrow> bool \<Rightarrow> bool" where
  "js_or x d = (case x of Some True \<Rightarrow> True | _ \<Rightarrow> d)"

definition isGaslessBased :: "PluginTypes option \<Rightarrow> bool" where
  "isGaslessBased pluginType = (pluginType = Some GaslessPluginName)"

definition isTokenBased :: "PluginTypes option \<Rightarrow> bool" where
  "isTokenBased pluginType = (pluginType = Some TokenVoting)"

text \<open>\<open>opts = options ? options : {}\<close>.\<close>

definition opts :: "DaoMembersOptions option \<Rightarrow> DaoMembersOptions" where
  "opts options =
     (case options of
        None \<Rightarrow> \<lparr>opt_searchTerm = None, opt_sort = None, opt_page = None,
                 opt_countOnly = None, opt_memberList = None, opt_enabled = None\<rparr>
      | Some x \<Rightarrow> x)"

text \<open>\<open>countOnly = opts?.countOnly || false\<close> and \<open>enabled = opts?.enabled || true\<close>.\<close>

definition countOnly :: "DaoMembersOptions option \<Rightarrow> bool" where
  "countOnly options = js_or (opt_countOnly (opts options)) False"

definition enabled :: "DaoMembersOptions option \<Rightarrow> bool" where
  "enabled options = js_or (opt_enabled (opts options)) True"

definition covalentSupportedNetwork :: "Hooks \<Rightarrow> bool" where
  "covalentSupportedNetwork h =
     (\<not> (useNetwork h = ''arbitrum'' \<or> useNetwork h = ''base'' \<or>
         useNetwork h = ''zksyncSepolia''))"

definition useGraphql ::
  "Hooks \<Rightarrow> string \<Rightarrow> PluginTypes option \<Rightarrow> DaoMembersOptions option \<Rightarrow> bool" where
  "useGraphql h pluginAddress pluginType options =
     (isTokenBased pluginType \<and> covalentSupportedNetwork h \<and> pluginType \<noteq> None \<and>
      useDaoToken h pluginAddress \<noteq> None \<and> enabled options)"

text \<open>The result of the call of \<open>useTokenHolders\<close>: \<open>graphqlData\<close> and its two flags.\<close>

definition graphql ::
  "Hooks \<Rightarrow> string \<Rightarrow> PluginTypes option \<Rightarrow> DaoMembersOptions option \<Rightarrow>
   TokenHolders option HookData" where
  "graphql h pluginAddress pluginType options =
     useTokenHolders h (useNetwork h)
       (map_option token_address (useDaoToken h pluginAddress))
       (opt_page (opts options))
       (useGraphql h pluginAddress pluginType options)"

definition useSubgraph ::
  "Hooks \<Rightarrow> string \<Rightarrow> PluginTypes option \<Rightarrow> DaoMembersOptions option \<Rightarrow> bool" where
  "useSubgraph h pluginAddress pluginType options =
     ((pluginType \<noteq> None \<and> \<not> isTokenBased pluginType) \<or>
      \<not> covalentSupportedNetwork h \<or>
      (covalentSupportedNetwork h \<and> isError (graphql h pluginAddress pluginType options)))"

text \<open>The result of the call of \<open>useMembers\<close>; \<open>subgraphData\<close> defaults to the empty list.\<close>

definition subgraph ::
  "Hooks \<Rightarrow> string \<Rightarrow> PluginTypes option \<Rightarrow> DaoMembersOptions option \<Rightarrow>
   SdkMember list option HookData" where
  "subgraph h pluginAddress pluginType options =
     useMembers h pluginAddress pluginType
       (useSubgraph h pluginAddress pluginType options \<and> enabled options)"

definition subgraphData ::
  "Hooks \<Rightarrow> string \<Rightarrow> PluginTypes option \<Rightarrow> DaoMembersOptions option \<Rightarrow> SdkMember list" where
  "subgraphData h pluginAddress pluginType options =
     (case data (subgraph h pluginAddress pluginType options) of None \<Rightarrow> [] | Some d \<Rightarrow> d)"

definition parsedSubgraphData ::
  "Hooks \<Rightarrow> string \<Rightarrow> PluginTypes option \<Rightarrow> DaoMembersOptions option \<Rightarrow> DaoMember list" where
  "parsedSubgraphData h pluginAddress pluginType options =
     map (\<lambda>member. sdkToDaoMember member (map_option decimals (useDaoToken h pluginAddress)))
       (subgraphData h pluginAddress pluginType options)"

definition enableCensus3 :: "PluginTypes option \<Rightarrow> DaoMembersOptions option \<Rightarrow> bool" where
  "enableCensus3 pluginType options = (enabled options \<and> isGaslessBased pluginType)"

definition census3Data ::
  "Hooks \<Rightarrow> string \<Rightarrow> PluginTypes option \<Rightarrow> DaoMembersOptions option \<Rightarrow>
   DaoMembersData HookData" where
  "census3Data h pluginAddress pluginType options =
     useCensus3DaoMembers h
       \<lparr>c3_holders = parsedSubgraphData h pluginAddress pluginType options,
        c3_pluginAddress = pluginAddress,
        c3_pluginType = pluginType,
        c3_options = (opts options)
          \<lparr>opt_countOnly := Some (countOnly options),
           opt_enabled := Some (enableCensus3 pluginType options),
           opt_page := opt_page (opts options)\<rparr>\<rparr>"

text \<open>
  Modelled from the spec: \<open>useReadContracts\<close> (wagmi) is not among the sources. The spec
  has an on-chain balance reader \<open>balanceOf(tokenAddress, walletAddress)\<close> issued as a
  single call, and "a failed or disabled read simply yields a zero balance": the data is
  undefined unless the query is enabled and the read has succeeded.
\<close>

definition useReadContracts ::
  "Hooks \<Rightarrow> string option \<Rightarrow> string option \<Rightarrow> bool \<Rightarrow> nat option" where
  "useReadContracts h tokenAddress walletAddress query_enabled =
     (if query_enabled then
        (case tokenAddress of None \<Rightarrow> None
         | Some t \<Rightarrow> (case walletAddress of None \<Rightarrow> None | Some w \<Rightarrow> balanceOf h t w))
      else None)"

definition userBalance ::
  "Hooks \<Rightarrow> string \<Rightarrow> PluginTypes option \<Rightarrow> DaoMembersOptions option \<Rightarrow> nat option" where
  "userBalance h pluginAddress pluginType options =
     useReadContracts h (map_option token_address (useDaoToken h pluginAddress)) (useWallet h)
       (useWallet h \<noteq> None \<and> useDaoToken h pluginAddress \<noteq> None \<and> \<not> countOnly options \<and>
        enabled options \<and> \<not> enableCensus3 pluginType options)"

text \<open>\<open>Number(formatUnits(userBalance?.[0] ?? '0', daoToken?.decimals))\<close>.\<close>

definition userBalanceNumber ::
  "Hooks \<Rightarrow> string \<Rightarrow> PluginTypes option \<Rightarrow> DaoMembersOptions option \<Rightarrow> rat" where
  "userBalanceNumber h pluginAddress pluginType options =
     formatUnits
       (case userBalance h pluginAddress pluginType options of None \<Rightarrow> 0 | Some b \<Rightarrow> b)
       (map_option decimals (useDaoToken h pluginAddress))"

definition getCombinedData ::
  "Hooks \<Rightarrow> string \<Rightarrow> PluginTypes option \<Rightarrow> DaoMembersOptions option \<Rightarrow> DaoMember list" where
  "getCombinedData h pluginAddress pluginType options =
     (if useSubgraph h pluginAddress pluginType options then
        (if length (subgraphData h pluginAddress pluginType options) = 0 \<and>
            userBalanceNumber h pluginAddress pluginType options > 0
         then [TokenDaoMember (useWallet h)
                 (userBalanceNumber h pluginAddress pluginType options)
                 (userBalanceNumber h pluginAddress pluginType options)
                 (useWallet h) []]
         else parsedSubgraphData h pluginAddress pluginType options)
      else parsedGraphqlData (data (graphql h pluginAddress pluginType options))
             (useDaoToken h pluginAddress))"

text \<open>\<open>opts?.sort ? [...getCombinedData()].sort(sortDaoMembers(opts.sort, address)) : getCombinedData()\<close>.\<close>

definition sortedData ::
  "Hooks \<Rightarrow> string \<Rightarrow> PluginTypes option \<Rightarrow> DaoMembersOptions option \<Rightarrow> DaoMember list" where
  "sortedData h pluginAddress pluginType options =
     (case opt_sort (opts options) of
        Some s \<Rightarrow> sort_by (sortDaoMembers (Some s) (useWallet h))
                   (getCombinedData h pluginAddress pluginType options)
      | None \<Rightarrow> getCombinedData h pluginAddress pluginType options)"

text \<open>
  \<open>xs.filter(member => member.address.toLowerCase().includes(searchTerm.toLowerCase()))\<close>:
  the predicate is called on every element in turn and throws on an undefined address.
\<close>

fun filter_search :: "string \<Rightarrow> DaoMember list \<Rightarrow> error + DaoMember list" where
  "filter_search tm [] = Inr []"
| "filter_search tm (member # ms) =
     (case address member of
        None \<Rightarrow> Inl TypeError
      | Some a \<Rightarrow>
          (case filter_search tm ms of
             Inl e \<Rightarrow> Inl e
           | Inr r \<Rightarrow>
               Inr (if includes_str (toLowerCase a) (toLowerCase tm) then member # r else r)))"

text \<open>\<open>!searchTerm ? sortedData : sortedData.filter(...)\<close>; the empty string is falsy.\<close>

definition filteredData ::
  "Hooks \<Rightarrow> string \<Rightarrow> PluginTypes option \<Rightarrow> DaoMembersOptions option \<Rightarrow>
   error + DaoMember list" where
  "filteredData h pluginAddress pluginType options =
     (case opt_searchTerm (opts options) of
        None \<Rightarrow> Inr (sortedData h pluginAddress pluginType options)
      | Some tm \<Rightarrow>
          (if tm = [] then Inr (sortedData h pluginAddress pluginType options)
           else filter_search tm (sortedData h pluginAddress pluginType options)))"

subsection \<open>The hook\<close>

definition useDaoMembers ::
  "Hooks \<Rightarrow> string \<Rightarrow> PluginTypes option \<Rightarrow> DaoMembersOptions option \<Rightarrow>
   error + DaoMembersData HookData" where
  "useDaoMembers h pluginAddress pluginType options =
     (if \<not> enabled options then
        Inr \<lparr>data = \<lparr>members = [], memberCount = 0, filteredMembers = [], daoToken = None\<rparr>,
             isLoading = False, isError = False\<rparr>
      else if enableCensus3 pluginType options then
        Inr (census3Data h pluginAddress pluginType options)
      else if countOnly options then
        Inr \<lparr>data =
               \<lparr>members = [],
                memberCount =
                  (if useSubgraph h pluginAddress pluginType options
                   then length (parsedSubgraphData h pluginAddress pluginType options)
                   else (case data (graphql h pluginAddress pluginType options) of
                           None \<Rightarrow> 0 | Some g \<Rightarrow> totalHolders g)),
                filteredMembers = [],
                daoToken = useDaoToken h pluginAddress\<rparr>,
             isLoading = (isLoading (subgraph h pluginAddress pluginType options) \<and>
                          isLoading (graphql h pluginAddress pluginType options)),
             isError = (isError (subgraph h pluginAddress pluginType options) \<or>
                        isError (graphql h pluginAddress pluginType options))\<rparr>
      else
        (case filteredData h pluginAddress pluginType options of
           Inl e \<Rightarrow> Inl e
         | Inr filtered \<Rightarrow>
             Inr \<lparr>data =
                    \<lparr>members = sortedData h pluginAddress pluginType options,
                     memberCount =
                       (if useSubgraph h pluginAddress pluginType options
                        then length (sortedData h pluginAddress pluginType options)
                        else (case data (graphql h pluginAddress pluginType options) of
                                None \<Rightarrow> length (sortedData h pluginAddress pluginType options)
                              | Some g \<Rightarrow> totalHolders g)),
                     filteredMembers = filtered,
                     daoToken = useDaoToken h pluginAddress\<rparr>,
                  isLoading = (isLoading (subgraph h pluginAddress pluginType options) \<and>
                               isLoading (graphql h pluginAddress pluginType options)),
                  isError = (isError (subgraph h pluginAddress pluginType options) \<or>
                             isError (graphql h pluginAddress pluginType options))\<rparr>))"

subsection \<open>Concrete collaborators\<close>

text \<open>
  A snapshot of the collaborators for concrete inputs: every hook returns the given value
  whatever arguments it is called with.
\<close>

definition snapshot ::
  "string \<Rightarrow> string option \<Rightarrow> Erc20TokenDetails option \<Rightarrow> TokenHolders option HookData \<Rightarrow>
   SdkMember list option HookData \<Rightarrow> DaoMembersData HookData \<Rightarrow> nat option \<Rightarrow> Hooks" where
  "snapshot network wallet tok gql sub census bal =
     \<lparr>useNetwork = network, useWallet = wallet, useDaoToken = (\<lambda>_. tok),
      useTokenHolders = (\<lambda>_ _ _ _. gql), useMembers = (\<lambda>_ _ _. sub),
      useCensus3DaoMembers = (\<lambda>_. census), balanceOf = (\<lambda>_ _. bal)\<rparr>"

text \<open>A query that has not returned anything, and the empty result envelope.\<close>

definition idle :: "'a option HookData" where
  "idle = \<lparr>data = None, isLoading = False, isError = False\<rparr>"

definition no_census :: "DaoMembersData HookData" where
  "no_census =
     \<lparr>data = \<lparr>members = [], memberCount = 0, filteredMembers = [], daoToken = None\<rparr>,
      isLoading = False, isError = False\<rparr>"

text \<open>Options with nothing set but \<open>enabled\<close>, \<open>countOnly\<close> and \<open>searchTerm\<close>.\<close>

definition options_with ::
  "bool option \<Rightarrow> bool option \<Rightarrow> string option \<Rightarrow> DaoMembersOptions" where
  "options_with en co st =
     \<lparr>opt_searchTerm = st, opt_sort = None, opt_page = None, opt_countOnly = co,
      opt_memberList = None, opt_enabled = en\<rparr>"

section \<open>Properties\<close>

lemmas hook_defs =
  js_or_def isGaslessBased_def isTokenBased_def GaslessPluginName_def opts_def countOnly_def
  enabled_def covalentSupportedNetwork_def useGraphql_def graphql_def useSubgraph_def
  subgraph_def subgraphData_def parsedSubgraphData_def enableCensus3_def census3Data_def
  useReadContracts_def userBalance_def userBalanceNumber_def getCombinedData_def
  sortedData_def filteredData_def

lemmas example_defs = snapshot_def idle_def no_census_def options_with_def

subsection \<open>The rounding of \<open>Number\<close>\<close>

lemma bitlen_eqI:
  assumes "2 ^ n \<le> x" and "x < 2 ^ Suc n"
  shows "bitlen x = int (Suc n)"
proof -
  have u: "bitlen x \<le> int (Suc n)"
    unfolding bitlen_le_iff_power using assms(2) by (simp only: nat_int) simp
  have l: "int (Suc n) \<le> bitlen x"
    unfolding bitlen_ge_iff_power using assms(1) by (simp only: nat_int) simp
  from u l show ?thesis by simp
qed

lemma round_half_even_one: "round_half_even n 1 = n"
  by (simp add: round_half_even_def)

lemma round_half_even_error:
  assumes "0 < d"
  shows "\<bar>(of_int (round_half_even n d) :: rat) - of_int n / of_int d\<bar> \<le> 1 / 2"
proof -
  define f where "f = n div d"
  define r where "r = n mod d"
  have n: "n = d * f + r" by (simp add: f_def r_def)
  have r: "0 \<le> r" "r < d" using assms by (simp_all add: r_def)
  have q: "(of_int n / of_int d :: rat) = of_int f + of_int r / of_int d"
    using assms by (simp add: n field_simps)
  have d: "(0::rat) < of_int d" using assms by simp
  consider "2 * r < d" | "d < 2 * r" | "2 * r = d" by linarith
  then show ?thesis
  proof cases
    case 1
    then have "round_half_even n d = f" by (simp add: round_half_even_def f_def r_def Let_def)
    moreover have "(of_int r / of_int d :: rat) \<le> 1 / 2"
    proof -
      have "(of_int (2 * r) :: rat) \<le> of_int d" using 1 by (simp only: of_int_le_iff)
      then show ?thesis using d by (simp add: field_simps)
    qed
    moreover have "(0::rat) \<le> of_int r / of_int d" using r d by simp
    ultimately show ?thesis by (simp add: q)
  next
    case 2
    then have "round_half_even n d = f + 1"
      by (simp add: round_half_even_def f_def r_def Let_def)
    moreover have "(1 / 2 :: rat) \<le> of_int r / of_int d"
    proof -
      have "(of_int d :: rat) \<le> of_int (2 * r)" using 2 by (simp only: of_int_le_iff)
      then show ?thesis using d by (simp add: field_simps)
    qed
    moreover have "(of_int r / of_int d :: rat) \<le> 1"
    proof -
      have "(of_int r :: rat) \<le> of_int d" using r by (simp only: of_int_le_iff)
      then show ?thesis using d by (simp add: field_simps)
    qed
    ultimately show ?thesis by (simp add: q)
  next
    case 3
    then have m: "round_half_even n d = f \<or> round_half_even n d = f + 1"
      by (simp add: round_half_even_def f_def r_def Let_def)
    have h: "(of_int r / of_int d :: rat) = 1 / 2"
    proof -
      have "(of_int d :: rat) = of_int (2 * r)" using 3 by simp
      then show ?thesis using d by (simp add: field_simps)
    qed
    from m show ?thesis
    proof
      assume "round_half_even n d = f"
      then show ?thesis by (simp add: q h)
    next
      assume "round_half_even n d = f + 1"
      then show ?thesis by (simp add: q h)
    qed
  qed
qed

lemma ilog2_lower:
  assumes "0 < p" and "0 < q"
  shows "2 powi (ilog2 p q) \<le> (of_nat p / of_nat q :: rat)"
proof (cases "2 powi (bitlen (int p) - bitlen (int q)) \<le> (of_nat p / of_nat q :: rat)")
  case True
  then show ?thesis by (simp add: ilog2_def Let_def)
next
  case False
  have bp: "2 ^ nat (bitlen (int p) - 1) \<le> int p" using bitlen_bounds [of "int p"] assms by simp
  have bq: "int q < 2 ^ nat (bitlen (int q))" using bitlen_bounds [of "int q"] assms by simp
  have lp: "1 \<le> bitlen (int p)" using bitlen_ge_iff_power [of 1 "int p"] assms by simp
  have lq: "0 \<le> bitlen (int q)" by (rule bitlen_nonneg)
  have 1: "(2::rat) powi (bitlen (int p) - 1) \<le> of_nat p"
  proof -
    have "(of_int (2 ^ nat (bitlen (int p) - 1)) :: rat) \<le> of_int (int p)"
      using bp by (simp only: of_int_le_iff)
    then show ?thesis using lp by (simp add: power_int_def)
  qed
  have 2: "(of_nat q :: rat) \<le> 2 powi (bitlen (int q))"
  proof -
    have "(of_int (int q) :: rat) \<le> of_int (2 ^ nat (bitlen (int q)))"
      using bq by (simp only: of_int_le_iff less_imp_le)
    then show ?thesis using lq by (simp add: power_int_def)
  qed
  have "(2::rat) powi (bitlen (int p) - bitlen (int q) - 1) =
        2 powi (bitlen (int p) - 1 - bitlen (int q))"
    by (simp add: algebra_simps)
  also have "\<dots> = 2 powi (bitlen (int p) - 1) / 2 powi (bitlen (int q))"
    by (rule power_int_diff) simp
  also have "\<dots> \<le> of_nat p / of_nat q"
    using 1 2 assms by (intro frac_le) simp_all
  finally show ?thesis using False by (simp add: ilog2_def Let_def)
qed

lemma ilog2_upper:
  assumes "0 < p" and "0 < q"
  shows "(of_nat p / of_nat q :: rat) < 2 powi (ilog2 p q + 1)"
proof (cases "2 powi (bitlen (int p) - bitlen (int q)) \<le> (of_nat p / of_nat q :: rat)")
  case False
  then show ?thesis by (simp add: ilog2_def Let_def)
next
  case True
  have bp: "int p < 2 ^ nat (bitlen (int p))" using bitlen_bounds [of "int p"] assms by simp
  have bq: "2 ^ nat (bitlen (int q) - 1) \<le> int q" using bitlen_bounds [of "int q"] assms by simp
  have lq: "1 \<le> bitlen (int q)" using bitlen_ge_iff_power [of 1 "int q"] assms by simp
  have lp: "0 \<le> bitlen (int p)" by (rule bitlen_nonneg)
  have 1: "(of_nat p :: rat) < 2 powi (bitlen (int p))"
  proof -
    have "(of_int (int p) :: rat) < of_int (2 ^ nat (bitlen (int p)))"
      using bp by (simp only: of_int_less_iff)
    then show ?thesis using lp by (simp add: power_int_def)
  qed
  have 2: "(2::rat) powi (bitlen (int q) - 1) \<le> of_nat q"
  proof -
    have "(of_int (2 ^ nat (bitlen (int q) - 1)) :: rat) \<le> of_int (int q)"
      using bq by (simp only: of_int_le_iff)
    then show ?thesis using lq by (simp add: power_int_def)
  qed
  have "(of_nat p / of_nat q :: rat) < 2 powi (bitlen (int p)) / 2 powi (bitlen (int q) - 1)"
    using 1 2 assms by (intro frac_less) simp_all
  also have "\<dots> = 2 powi (bitlen (int p) - (bitlen (int q) - 1))"
    by (rule power_int_diff [symmetric]) simp
  also have "\<dots> = 2 powi (bitlen (int p) - bitlen (int q) + 1)"
    by (simp add: algebra_simps)
  finally show ?thesis using True by (simp add: ilog2_def Let_def)
qed

lemma pow2_nonneg: "0 \<le> e \<Longrightarrow> (2::rat) powi e = 2 ^ nat e"
  by (simp add: power_int_def)

lemma pow2_neg: "e < 0 \<Longrightarrow> (2::rat) powi e = 1 / 2 ^ nat (- e)"
  by (simp add: power_int_def inverse_eq_divide power_one_over)

lemma pow2_less_imp: "(2::rat) powi a < 2 powi b \<Longrightarrow> a < b"
proof (rule ccontr)
  assume l: "(2::rat) powi a < 2 powi b" and "\<not> a < b"
  then have "b \<le> a" by simp
  then have "(2::rat) powi b \<le> 2 powi a" by (intro power_int_increasing) simp_all
  with l show False by simp
qed

lemma inverse_bound:
  fixes x y c :: rat
  assumes "0 < y" and "0 < c" and "y \<le> x * c"
  shows "1 / c \<le> x / y"
  using assms by (simp add: field_simps)

text \<open>The significand is the scaled quotient rounded to an integer.\<close>

lemma Number_significand:
  assumes "0 < p" and "0 < q"
  defines "e \<equiv> max (ilog2 p q - 52) (- 1074)"
  shows "\<exists>m. Number p q = of_int m * 2 powi e \<and>
             \<bar>(of_int m :: rat) - of_nat p / of_nat q / 2 powi e\<bar> \<le> 1 / 2"
proof (cases "0 \<le> e")
  case True
  let ?m = "round_half_even (int p) (int q * 2 ^ nat e)"
  have t: "Number p q = of_int ?m * 2 powi e"
    using assms(1) True by (simp add: Number_def Let_def e_def)
  have "0 < int q * 2 ^ nat e" using assms(2) by simp
  from round_half_even_error [OF this, of "int p"]
  have "\<bar>(of_int ?m :: rat) - of_nat p / (of_nat q * 2 ^ nat e)\<bar> \<le> 1 / 2" by simp
  moreover have "(2::rat) powi e = 2 ^ nat e" using True by (rule pow2_nonneg)
  ultimately show ?thesis using t by (auto simp: divide_divide_eq_left)
next
  case False
  let ?m = "round_half_even (int p * 2 ^ nat (- e)) (int q)"
  have t: "Number p q = of_int ?m * 2 powi e"
    using assms(1) False by (simp add: Number_def Let_def e_def)
  have "0 < int q" using assms(2) by simp
  from round_half_even_error [OF this, of "int p * 2 ^ nat (- e)"]
  have "\<bar>(of_int ?m :: rat) - of_nat p * 2 ^ nat (- e) / of_nat q\<bar> \<le> 1 / 2" by simp
  moreover have "(2::rat) powi e = 1 / 2 ^ nat (- e)"
    using False by (intro pow2_neg) simp
  ultimately show ?thesis using t by auto
qed

lemma Number_zero: "Number 0 q = 0"
  by (simp add: Number_def)

lemma Number_pos:
  assumes "0 < p" and "0 < q" and "(of_nat q :: rat) \<le> of_nat p * 2 ^ 1074"
  shows "0 < Number p q"
proof -
  define e where "e = max (ilog2 p q - 52) (- 1074)"
  let ?x = "of_nat p / of_nat q :: rat"
  from Number_significand [OF assms(1,2)] obtain m where
    t: "Number p q = of_int m * 2 powi e"
    and r: "\<bar>(of_int m :: rat) - ?x / 2 powi e\<bar> \<le> 1 / 2"
    by (auto simp: e_def)
  have pw: "(0::rat) < 2 powi e" by simp
  have "2 powi e \<le> ?x"
  proof (cases "- 1074 \<le> ilog2 p q - 52")
    case True
    then have "e = ilog2 p q - 52" by (simp add: e_def)
    then have "(2::rat) powi e \<le> 2 powi (ilog2 p q)" by (simp add: power_int_increasing)
    with ilog2_lower [OF assms(1,2)] show ?thesis by simp
  next
    case False
    then have "e = - 1074" by (simp add: e_def)
    then have "(2::rat) powi e = 1 / 2 ^ nat 1074" using pow2_neg [of e] by simp
    moreover have "(1 / 2 ^ nat 1074 :: rat) \<le> ?x"
      using assms by (intro inverse_bound) simp_all
    ultimately show ?thesis by (simp only:)
  qed
  then have "1 \<le> ?x / 2 powi e" using pw by (subst pos_le_divide_eq) simp_all
  with r have "(1 / 2 :: rat) \<le> of_int m" by linarith
  then have "(0::rat) < of_int m" by linarith
  then show ?thesis using pw by (simp add: t)
qed

lemma Number_error:
  assumes "0 < p" and "0 < q" and "(of_nat q :: rat) \<le> of_nat p * 2 ^ 1022"
  shows "\<bar>Number p q - of_nat p / of_nat q\<bar> \<le> of_nat p / of_nat q / 2 ^ 53"
proof -
  define e where "e = max (ilog2 p q - 52) (- 1074)"
  let ?x = "of_nat p / of_nat q :: rat"
  from Number_significand [OF assms(1,2)] obtain m where
    t: "Number p q = of_int m * 2 powi e"
    and r: "\<bar>(of_int m :: rat) - ?x / 2 powi e\<bar> \<le> 1 / 2"
    by (auto simp: e_def)
  have pw: "(0::rat) < 2 powi e" by simp
  have "(2 powi (- 1022) :: rat) \<le> ?x"
  proof -
    have "(2::rat) powi (- 1022) = 1 / 2 ^ nat 1022" using pow2_neg [of "- 1022"] by simp
    moreover have "(1 / 2 ^ nat 1022 :: rat) \<le> ?x"
      using assms by (intro inverse_bound) simp_all
    ultimately show ?thesis by (simp only:)
  qed
  with ilog2_upper [OF assms(1,2)] have "(2::rat) powi (- 1022) < 2 powi (ilog2 p q + 1)"
    by linarith
  then have "- 1022 < ilog2 p q + 1" by (rule pow2_less_imp)
  then have e: "e = ilog2 p q - 52" by (simp add: e_def)
  have "\<bar>Number p q - ?x\<bar> = \<bar>of_int m - ?x / 2 powi e\<bar> * 2 powi e"
  proof -
    have "Number p q - ?x = (of_int m - ?x / 2 powi e) * 2 powi e"
      using pw by (simp add: t field_simps)
    then show ?thesis using pw by (simp add: abs_mult)
  qed
  also have "\<dots> \<le> 1 / 2 * 2 powi e" using r pw by (intro mult_right_mono) simp_all
  also have "\<dots> = 2 powi (ilog2 p q) / 2 ^ 53"
  proof -
    have "(2::rat) powi e = 2 powi (ilog2 p q) / 2 powi 52"
      unfolding e by (rule power_int_diff) simp
    then show ?thesis by simp
  qed
  also have "\<dots> \<le> ?x / 2 ^ 53"
    using ilog2_lower [OF assms(1,2)] by (simp add: divide_right_mono)
  finally show ?thesis .
qed

text \<open>An integer below \<open>2 ^ 53\<close> is a double.\<close>

lemma Number_integer:
  assumes "p < 2 ^ 53"
  shows "Number p 1 = of_nat p"
proof (cases "p = 0")
  case True
  then show ?thesis by (simp add: Number_zero)
next
  case False
  then have p: "0 < p" by simp
  define e where "e = max (ilog2 p 1 - 52) (- 1074)"
  have "(2::rat) powi (ilog2 p 1) \<le> of_nat p" using ilog2_lower [OF p, of 1] by simp
  also have "(of_nat p :: rat) < 2 ^ 53"
  proof -
    have "(of_nat p :: rat) < of_nat (2 ^ 53)" using assms by (simp only: of_nat_less_iff)
    then show ?thesis by simp
  qed
  finally have "(2::rat) powi (ilog2 p 1) < 2 powi 53" by simp
  then have u: "ilog2 p 1 < 53" by (rule pow2_less_imp)
  then have e0: "e \<le> 0" by (simp add: e_def)
  have td: "Number p 1 =
      of_int (if 0 \<le> e then round_half_even (int p) (int 1 * 2 ^ nat e)
              else round_half_even (int p * 2 ^ nat (- e)) (int 1)) * 2 powi e"
    unfolding e_def using p by (simp add: Number_def Let_def)
  show ?thesis
  proof (cases "e = 0")
    case True
    with td show ?thesis by (simp add: round_half_even_one)
  next
    case False
    with e0 have n: "e < 0" by simp
    then have "(2::rat) powi e = 1 / 2 ^ nat (- e)" by (rule pow2_neg)
    with td n show ?thesis by (simp add: round_half_even_one)
  qed
qed

text \<open>The values of \<open>Number\<close> used in the examples, and the range of a token's decimals.\<close>

lemma Number_150: "Number 150 1 = 150"
  using Number_integer [of 150] by simp

lemma Number_5_halves: "Number 25 10 = 5 / 2"
proof -
  have "bitlen 25 = 5" using bitlen_eqI [of 4 25] by simp
  moreover have "bitlen 10 = 4" using bitlen_eqI [of 3 10] by simp
  ultimately show ?thesis by (simp add: Number_def ilog2_def round_half_even_def Let_def)
qed

lemma Number_above_2_53: "Number 9007199254740993 1 = 9007199254740992"
proof -
  have "bitlen 9007199254740993 = 54" using bitlen_eqI [of 53 9007199254740993] by simp
  moreover have "bitlen 1 = 1" using bitlen_eqI [of 0 1] by simp
  ultimately show ?thesis by (simp add: Number_def ilog2_def round_half_even_def Let_def)
qed

lemma uint8_decimals_bound:
  assumes "d \<le> 255" and "0 < b"
  shows "(of_nat (10 ^ d) :: rat) \<le> of_nat b * 2 ^ 1022"
proof -
  have "(10::nat) ^ d \<le> 10 ^ 255" using assms(1) by (intro power_increasing) simp_all
  also have "(10::nat) ^ 255 \<le> 2 ^ 1022" by simp
  also have "(2::nat) ^ 1022 \<le> b * 2 ^ 1022" using assms(2) by simp
  finally have "(of_nat (10 ^ d) :: rat) \<le> of_nat (b * 2 ^ 1022)" by (simp only: of_nat_le_iff)
  then show ?thesis by simp
qed

subsection \<open>The sort\<close>

lemma set_insert_by: "set (insert_by cmp x xs) = insert x (set xs)"
  by (induction xs) auto

lemma sort_by_Nil: "sort_by cmp [] = []"
  by (simp add: sort_by_def)

lemma sort_by_Cons: "sort_by cmp (x # xs) = insert_by cmp x (sort_by cmp xs)"
  by (simp add: sort_by_def)

lemma sort_by_single: "sort_by cmp [x] = [x]"
  by (simp add: sort_by_def)

lemma set_sort_by: "set (sort_by cmp xs) = set xs"
  by (induction xs) (simp_all add: sort_by_Nil sort_by_Cons set_insert_by)

lemma length_insert_by: "length (insert_by cmp x xs) = Suc (length xs)"
  by (induction xs) auto

lemma length_sort_by: "length (sort_by cmp xs) = length xs"
  by (induction xs) (simp_all add: sort_by_Nil sort_by_Cons length_insert_by)

subsection \<open>The comparator and the connected wallet\<close>

lemma compareAddresses_Some:
  "compareAddresses (Some x) (Some y) \<longleftrightarrow> toLowerCase x = toLowerCase y"
  by (simp add: compareAddresses_def)

lemma connected_left:
  "compareAddresses (address a) u \<Longrightarrow> sortDaoMembers k u a b = - 1"
  by (simp add: sortDaoMembers_def)





subsection \<open>The flags and the paths of the hook\<close>

text \<open>\<open>opts?.enabled || true\<close> is true whatever \<open>options.enabled\<close> is.\<close>

lemma enabled_always: "enabled options"
  by (simp add: enabled_def js_or_def split: option.split bool.split)

lemma enableCensus3_iff: "enableCensus3 pluginType options = (pluginType = Some Gasless)"
  by (simp add: enableCensus3_def enabled_always isGaslessBased_def GaslessPluginName_def)

lemma formatUnits_zero: "formatUnits 0 d = 0"
  by (simp add: formatUnits_def Number_zero)

text \<open>A positive scaled balance has been read for a connected wallet.\<close>

lemma userBalanceNumber_pos_wallet:
  "0 < userBalanceNumber h pa pt options \<Longrightarrow> useWallet h \<noteq> None"
  by (cases "useWallet h")
    (simp_all add: userBalanceNumber_def userBalance_def useReadContracts_def formatUnits_zero)

lemma userBalanceNumber_onchain:
  assumes "pluginType \<noteq> Some GaslessPluginName" and "\<not> countOnly options"
    and "useWallet h = Some w" and "useDaoToken h pa = Some tok"
    and "balanceOf h (token_address tok) w = Some b"
  shows "userBalanceNumber h pa pluginType options = formatUnits b (Some (decimals tok))"
  using assms
  by (simp add: userBalanceNumber_def userBalance_def useReadContracts_def enabled_always
      enableCensus3_iff GaslessPluginName_def)

subsection \<open>Every member of the sorted list has an address\<close>

lemma address_sdkToDaoMember: "address (sdkToDaoMember m d) \<noteq> None"
  by (cases m) (simp_all add: Let_def)

lemma address_parsedSubgraphData:
  "m \<in> set (parsedSubgraphData h pa pt options) \<Longrightarrow> address m \<noteq> None"
  using address_sdkToDaoMember by (auto simp: parsedSubgraphData_def simp del: not_None_eq)

lemma address_parsedGraphqlData:
  "m \<in> set (parsedGraphqlData g tok) \<Longrightarrow> address m \<noteq> None"
  by (auto simp: parsedGraphqlData_def Let_def split: option.splits)

lemma address_getCombinedData:
  "m \<in> set (getCombinedData h pa pt options) \<Longrightarrow> address m \<noteq> None"
  by (auto simp: getCombinedData_def split: if_splits
      dest: address_parsedSubgraphData address_parsedGraphqlData userBalanceNumber_pos_wallet)

lemma address_sortedData:
  "m \<in> set (sortedData h pa pt options) \<Longrightarrow> address m \<noteq> None"
  by (auto simp: sortedData_def set_sort_by split: option.splits dest: address_getCombinedData)

subsection \<open>The search filter\<close>

lemma includes_str_Nil: "includes_str hay [] = True"
  by (cases hay) simp_all

lemma starts_with_iff: "starts_with hay needle \<longleftrightarrow> (\<exists>post. hay = needle @ post)"
  by (induction hay needle rule: starts_with.induct) auto

text \<open>\<open>includes_str\<close> is the substring test.\<close>

lemma includes_str_iff: "includes_str hay needle \<longleftrightarrow> (\<exists>pre post. hay = pre @ needle @ post)"
proof (induction hay)
  case Nil
  then show ?case by auto
next
  case (Cons h hs)
  show ?case
  proof
    assume "includes_str (h # hs) needle"
    then consider "starts_with (h # hs) needle" | "includes_str hs needle" by auto
    then show "\<exists>pre post. h # hs = pre @ needle @ post"
    proof cases
      case 1
      then obtain post where "h # hs = needle @ post" by (auto simp: starts_with_iff)
      then have "h # hs = [] @ needle @ post" by simp
      then show ?thesis by blast
    next
      case 2
      with Cons.IH obtain pre post where "hs = pre @ needle @ post" by blast
      then have "h # hs = (h # pre) @ needle @ post" by simp
      then show ?thesis by blast
    qed
  next
    assume "\<exists>pre post. h # hs = pre @ needle @ post"
    then obtain pre post where e: "h # hs = pre @ needle @ post" by blast
    show "includes_str (h # hs) needle"
    proof (cases pre)
      case Nil
      with e have "starts_with (h # hs) needle" by (auto simp: starts_with_iff)
      then show ?thesis by simp
    next
      case (Cons p ps)
      with e have "hs = ps @ needle @ post" by simp
      with Cons.IH have "includes_str hs needle" by blast
      then show ?thesis by simp
    qed
  qed
qed

lemma filter_search_total:
  "\<forall>m \<in> set ms. address m \<noteq> None \<Longrightarrow>
   filter_search t ms =
     Inr (filter (\<lambda>m. case address m of None \<Rightarrow> False
                       | Some a \<Rightarrow> includes_str (toLowerCase a) (toLowerCase t)) ms)"
  by (induction ms) (auto split: option.splits)

lemma filter_empty_term:
  "\<forall>m \<in> set ms. address m \<noteq> None \<Longrightarrow>
   filter (\<lambda>m. case address m of None \<Rightarrow> False
              | Some a \<Rightarrow> includes_str (toLowerCase a) (toLowerCase [])) ms = ms"
  by (induction ms) (auto simp: includes_str_Nil toLowerCase_def split: option.splits)

text \<open>The filter never throws: \<open>filteredData\<close> is the filtered sorted list.\<close>

lemma filteredData_total:
  "filteredData h pa pt options =
     Inr (case opt_searchTerm (opts options) of
            None \<Rightarrow> sortedData h pa pt options
          | Some t \<Rightarrow>
              filter (\<lambda>m. case address m of None \<Rightarrow> False
                         | Some a \<Rightarrow> includes_str (toLowerCase a) (toLowerCase t))
                (sortedData h pa pt options))"
proof (cases "opt_searchTerm (opts options)")
  case None
  then show ?thesis by (simp add: filteredData_def)
next
  case (Some t)
  have all: "\<forall>m \<in> set (sortedData h pa pt options). address m \<noteq> None"
    using address_sortedData by blast
  show ?thesis
  proof (cases "t = []")
    case True
    from all show ?thesis
      by (simp add: Some True filteredData_def filter_empty_term)
  next
    case False
    with Some show ?thesis by (simp add: filteredData_def filter_search_total [OF all])
  qed
qed

text \<open>The last return of the hook, reached when the plugin is not gasless and not count-only.\<close>

lemma full_path:
  assumes "pluginType \<noteq> Some GaslessPluginName" and "\<not> countOnly options"
  shows "\<exists>r. useDaoMembers h pa pluginType options = Inr r \<and>
           members (data r) = sortedData h pa pluginType options \<and>
           isLoading r = (isLoading (subgraph h pa pluginType options) \<and>
                          isLoading (graphql h pa pluginType options)) \<and>
           isError r = (isError (subgraph h pa pluginType options) \<or>
                        isError (graphql h pa pluginType options))"
  using assms
  by (simp add: useDaoMembers_def enabled_always enableCensus3_iff GaslessPluginName_def
      filteredData_total)

lemma fallback_sortedData:
  assumes "useSubgraph h pa pt options" and "subgraphData h pa pt options = []"
    and "0 < userBalanceNumber h pa pt options"
  shows "sortedData h pa pt options =
     [TokenDaoMember (useWallet h) (userBalanceNumber h pa pt options)
        (userBalanceNumber h pa pt options) (useWallet h) []]"
  using assms by (simp add: sortedData_def getCombinedData_def sort_by_single split: option.split)

subsection \<open>The option \<open>enabled\<close> has no effect\<close>

lemma opts_enabled_update [simp]:
  "opts (Some (x\<lparr>opt_enabled := e\<rparr>)) = (opts (Some x))\<lparr>opt_enabled := e\<rparr>"
  by (simp add: opts_def)

lemma ignore_countOnly: "countOnly (Some (x\<lparr>opt_enabled := e\<rparr>)) = countOnly (Some x)"
  by (simp add: countOnly_def)

lemma ignore_useGraphql:
  "useGraphql h pa pt (Some (x\<lparr>opt_enabled := e\<rparr>)) = useGraphql h pa pt (Some x)"
  by (simp add: useGraphql_def enabled_always)

lemma ignore_graphql:
  "graphql h pa pt (Some (x\<lparr>opt_enabled := e\<rparr>)) = graphql h pa pt (Some x)"
  by (simp add: graphql_def ignore_useGraphql)

lemma ignore_useSubgraph:
  "useSubgraph h pa pt (Some (x\<lparr>opt_enabled := e\<rparr>)) = useSubgraph h pa pt (Some x)"
  by (simp add: useSubgraph_def ignore_graphql)

lemma ignore_subgraph:
  "subgraph h pa pt (Some (x\<lparr>opt_enabled := e\<rparr>)) = subgraph h pa pt (Some x)"
  by (simp add: subgraph_def ignore_useSubgraph enabled_always)

lemma ignore_subgraphData:
  "subgraphData h pa pt (Some (x\<lparr>opt_enabled := e\<rparr>)) = subgraphData h pa pt (Some x)"
  by (simp add: subgraphData_def ignore_subgraph)

lemma ignore_parsedSubgraphData:
  "parsedSubgraphData h pa pt (Some (x\<lparr>opt_enabled := e\<rparr>)) =
   parsedSubgraphData h pa pt (Some x)"
  by (simp add: parsedSubgraphData_def ignore_subgraphData)

lemma ignore_census3Data:
  "census3Data h pa pt (Some (x\<lparr>opt_enabled := e\<rparr>)) = census3Data h pa pt (Some x)"
  by (simp add: census3Data_def ignore_parsedSubgraphData ignore_countOnly enableCensus3_iff)

lemma ignore_userBalanceNumber:
  "userBalanceNumber h pa pt (Some (x\<lparr>opt_enabled := e\<rparr>)) =
   userBalanceNumber h pa pt (Some x)"
  by (simp add: userBalanceNumber_def userBalance_def ignore_countOnly enabled_always
      enableCensus3_iff)

lemma ignore_getCombinedData:
  "getCombinedData h pa pt (Some (x\<lparr>opt_enabled := e\<rparr>)) = getCombinedData h pa pt (Some x)"
  by (simp add: getCombinedData_def ignore_useSubgraph ignore_subgraphData
      ignore_userBalanceNumber ignore_parsedSubgraphData ignore_graphql)

lemma ignore_sortedData:
  "sortedData h pa pt (Some (x\<lparr>opt_enabled := e\<rparr>)) = sortedData h pa pt (Some x)"
  by (simp add: sortedData_def ignore_getCombinedData cong: option.case_cong)

lemma ignore_filteredData:
  "filteredData h pa pt (Some (x\<lparr>opt_enabled := e\<rparr>)) = filteredData h pa pt (Some x)"
  by (simp add: filteredData_def ignore_sortedData cong: option.case_cong if_cong)

text \<open>The hook does not depend on \<open>options.enabled\<close>.\<close>

lemma enabled_option_ignored:
  "useDaoMembers h pa pt (Some (x\<lparr>opt_enabled := e\<rparr>)) = useDaoMembers h pa pt (Some x)"
  by (simp add: useDaoMembers_def enabled_always enableCensus3_iff ignore_census3Data
      ignore_countOnly ignore_useSubgraph ignore_parsedSubgraphData ignore_graphql
      ignore_subgraph ignore_filteredData ignore_sortedData
      cong: sum.case_cong option.case_cong if_cong)

subsection \<open>The sort on a consistent comparator\<close>

text \<open>
  Where the comparator is total and transitive on the members of the list, the sorted
  list is ordered by it.
\<close>

lemma sorted_wrt_insert_by:
  assumes tot: "\<And>p q. p \<in> S \<Longrightarrow> q \<in> S \<Longrightarrow> cmp p q \<le> 0 \<or> cmp q p \<le> 0"
    and trans: "\<And>p q r. p \<in> S \<Longrightarrow> q \<in> S \<Longrightarrow> r \<in> S \<Longrightarrow>
                  cmp p q \<le> 0 \<Longrightarrow> cmp q r \<le> 0 \<Longrightarrow> cmp p r \<le> 0"
    and "x \<in> S" and "set ys \<subseteq> S"
    and "sorted_wrt (\<lambda>p q. cmp p q \<le> 0) ys"
  shows "sorted_wrt (\<lambda>p q. cmp p q \<le> 0) (insert_by cmp x ys)"
  using assms(3-)
proof (induction ys)
  case Nil
  then show ?case by simp
next
  case (Cons y ys)
  show ?case
  proof (cases "cmp x y \<le> 0")
    case True
    have "cmp x z \<le> 0" if "z \<in> set ys" for z
    proof -
      from Cons.prems that have "cmp y z \<le> 0" "z \<in> S" "y \<in> S" by auto
      with True Cons.prems(1) show ?thesis using trans by blast
    qed
    with True Cons.prems show ?thesis by auto
  next
    case False
    with tot [of x y] Cons.prems have yx: "cmp y x \<le> 0" by auto
    from Cons.prems have "sorted_wrt (\<lambda>p q. cmp p q \<le> 0) (insert_by cmp x ys)"
      by (intro Cons.IH) auto
    moreover have "cmp y z \<le> 0" if "z \<in> set (insert_by cmp x ys)" for z
      using that yx Cons.prems by (auto simp: set_insert_by)
    ultimately show ?thesis using False by simp
  qed
qed

lemma sorted_wrt_sort_by:
  assumes tot: "\<And>p q. p \<in> S \<Longrightarrow> q \<in> S \<Longrightarrow> cmp p q \<le> 0 \<or> cmp q p \<le> 0"
    and trans: "\<And>p q r. p \<in> S \<Longrightarrow> q \<in> S \<Longrightarrow> r \<in> S \<Longrightarrow>
                  cmp p q \<le> 0 \<Longrightarrow> cmp q r \<le> 0 \<Longrightarrow> cmp p r \<le> 0"
    and "set xs \<subseteq> S"
  shows "sorted_wrt (\<lambda>p q. cmp p q \<le> 0) (sort_by cmp xs)"
  using assms(3)
proof (induction xs)
  case Nil
  then show ?case by (simp add: sort_by_Nil)
next
  case (Cons x xs)
  then have "sorted_wrt (\<lambda>p q. cmp p q \<le> 0) (sort_by cmp xs)" by simp
  from sorted_wrt_insert_by [of S cmp x "sort_by cmp xs", OF tot trans _ _ this] Cons.prems
  show ?case by (simp add: sort_by_Cons set_sort_by)
qed

text \<open>The comparator on two Token members, neither pinned.\<close>

lemma token_compare:
  assumes "isTokenDaoMember a" "isTokenDaoMember b"
    and "\<not> compareAddresses (address a) u" "\<not> compareAddresses (address b) u"
    and "\<forall>d \<in> set (delegators a). \<not> compareAddresses (Some d) u"
    and "\<forall>d \<in> set (delegators b). \<not> compareAddresses (Some d) u"
  shows "sortDaoMembers (Some Delegations) u a b \<le> 0 \<longleftrightarrow>
           length (delegators b) < length (delegators a) \<or>
           (length (delegators b) = length (delegators a) \<and> votingPower b \<le> votingPower a)"
  using assms by (auto simp: sortDaoMembers_def list_ex_iff Let_def)

lemma delegations_sorted:
  assumes "\<forall>m \<in> set ms. isTokenDaoMember m \<and> \<not> compareAddresses (address m) u \<and>
             (\<forall>d \<in> set (delegators m). \<not> compareAddresses (Some d) u)"
  shows "sorted_wrt (\<lambda>p q. sortDaoMembers (Some Delegations) u p q \<le> 0)
           (sort_by (sortDaoMembers (Some Delegations) u) ms)"
proof -
  let ?S = "{m. isTokenDaoMember m \<and> \<not> compareAddresses (address m) u \<and>
             (\<forall>d \<in> set (delegators m). \<not> compareAddresses (Some d) u)}"
  have s: "set ms \<subseteq> ?S" using assms by auto
  show ?thesis
  proof (rule sorted_wrt_sort_by [of ?S, OF _ _ s])
    fix p q assume "p \<in> ?S" "q \<in> ?S"
    then show "sortDaoMembers (Some Delegations) u p q \<le> 0 \<or>
               sortDaoMembers (Some Delegations) u q p \<le> 0"
      by (simp add: token_compare) linarith
  next
    fix p q r assume "p \<in> ?S" "q \<in> ?S" "r \<in> ?S"
      and "sortDaoMembers (Some Delegations) u p q \<le> 0"
      and "sortDaoMembers (Some Delegations) u q r \<le> 0"
    then show "sortDaoMembers (Some Delegations) u p r \<le> 0"
      by (simp add: token_compare) linarith
  qed
qed

lemma never_after:
  fixes cmp :: "'a \<Rightarrow> 'a \<Rightarrow> rat"
  assumes "sorted_wrt (\<lambda>p q. cmp p q \<le> 0) xs" and "cmp b a > 0"
  shows "xs \<noteq> pre @ b # mid @ a # post"
proof
  assume "xs = pre @ b # mid @ a # post"
  with assms(1) have "cmp b a \<le> 0" by (simp add: sorted_wrt_append)
  with assms(2) show False by simp
qed

text \<open>The comparator on a pair with a Basic member, neither member pinned.\<close>

lemma address_compare:
  assumes "address a = Some x" and "address b = Some y"
    and "\<not> compareAddresses (Some x) u" and "\<not> compareAddresses (Some y) u"
    and "\<not> isTokenDaoMember a \<or> \<not> isTokenDaoMember b"
  shows "sortDaoMembers k u a b = (if y < x then 1 else - 1)"
  using assms by (auto simp: sortDaoMembers_def js_gt_def)

lemma basic_sorted:
  assumes "\<forall>m \<in> set ms. \<not> isTokenDaoMember m \<and> address m \<noteq> None \<and>
             \<not> compareAddresses (address m) u"
  shows "sorted_wrt (\<lambda>p q. \<exists>x y. address p = Some x \<and> address q = Some y \<and> x \<le> y)
           (sort_by (sortDaoMembers k u) ms)"
proof -
  let ?S = "{m. \<not> isTokenDaoMember m \<and> address m \<noteq> None \<and>
             \<not> compareAddresses (address m) u}"
  have le: "sortDaoMembers k u p q \<le> 0 \<longleftrightarrow>
              (\<exists>x y. address p = Some x \<and> address q = Some y \<and> x \<le> y)"
    if "p \<in> ?S" "q \<in> ?S" for p q
  proof -
    from that obtain x y where xy: "address p = Some x" "address q = Some y" by auto
    with that have "sortDaoMembers k u p q = (if y < x then 1 else - 1)"
      by (intro address_compare) auto
    with xy show ?thesis by auto
  qed
  have s: "set ms \<subseteq> ?S" using assms by auto
  have "sorted_wrt (\<lambda>p q. sortDaoMembers k u p q \<le> 0) (sort_by (sortDaoMembers k u) ms)"
  proof (rule sorted_wrt_sort_by [of ?S, OF _ _ s])
    fix p q assume "p \<in> ?S" "q \<in> ?S"
    then show "sortDaoMembers k u p q \<le> 0 \<or> sortDaoMembers k u q p \<le> 0"
      using le [of p q] le [of q p] by auto
  next
    fix p q r assume "p \<in> ?S" "q \<in> ?S" "r \<in> ?S"
      and "sortDaoMembers k u p q \<le> 0" and "sortDaoMembers k u q r \<le> 0"
    then show "sortDaoMembers k u p r \<le> 0"
      using le [of p q] le [of q r] le [of p r] by auto
  qed
  then show ?thesis
  proof (rule sorted_wrt_mono_rel [rotated])
    fix p q assume "p \<in> set (sort_by (sortDaoMembers k u) ms)"
      "q \<in> set (sort_by (sortDaoMembers k u) ms)" "sortDaoMembers k u p q \<le> 0"
    then have "p \<in> ?S" "q \<in> ?S" and c: "sortDaoMembers k u p q \<le> 0"
      using s by (auto simp: set_sort_by)
    from le [OF this(1,2)] c
    show "\<exists>x y. address p = Some x \<and> address q = Some y \<and> x \<le> y" by blast
  qed
qed

section \<open>The claims\<close>

text \<open>
  Claim C1. A call with \<open>options.enabled = false\<close> should return the empty envelope before
  any other branch is taken. The hook computes \<open>enabled = opts?.enabled || true\<close>, which is
  true for every value of \<open>options.enabled\<close>, so the short-circuit is never taken: for a
  multisig plugin whose subgraph lists one member, the call with \<open>enabled = false\<close>
  returns that member and the count one.
\<close>

theorem disabled_option_is_ignored:
  "useDaoMembers
     (snapshot ''ethereum'' None None idle
        \<lparr>data = Some [AddressString ''0x01''], isLoading = False, isError = False\<rparr>
        no_census None)
     ''0xp'' (Some Multisig) (Some (options_with (Some False) None None)) =
   Inr \<lparr>data = \<lparr>members = [MultisigDaoMember (Some ''0x01'')], memberCount = 1,
               filteredMembers = [MultisigDaoMember (Some ''0x01'')], daoToken = None\<rparr>,
        isLoading = False, isError = False\<rparr>"
  by (simp add: useDaoMembers_def example_defs hook_defs formatUnits_def)

theorem disabled_option_is_ignored_witness:
  "\<exists>r. useDaoMembers
          (snapshot ''ethereum'' None None idle
             \<lparr>data = Some [AddressString ''0x01''], isLoading = False, isError = False\<rparr>
             no_census None)
          ''0xp'' (Some Multisig) (Some (options_with (Some False) None None)) = Inr r \<and>
       members (data r) \<noteq> [] \<and> memberCount (data r) \<noteq> 0"
  using disabled_option_is_ignored by simp

text \<open>
  Claim C2, as stated, fails. A wallet holding \<open>2 ^ 53 + 1\<close> units of a token with no
  decimals gets the fallback member with balance and voting power \<open>2 ^ 53\<close>, which is not
  the on-chain balance scaled by the decimals: the member's fields are numbers, and
  \<open>Number\<close> rounds the scaled balance to a double.
\<close>

theorem fallback_balance_is_rounded:
  "useDaoMembers
     (snapshot ''arbitrum'' (Some ''0xw'') (Some \<lparr>token_address = ''0xt'', decimals = 0\<rparr>)
        idle \<lparr>data = Some [], isLoading = False, isError = False\<rparr> no_census
        (Some 9007199254740993))
     ''0xp'' (Some TokenVoting) None =
   Inr \<lparr>data =
          \<lparr>members =
             [TokenDaoMember (Some ''0xw'') 9007199254740992 9007199254740992 (Some ''0xw'') []],
           memberCount = 1,
           filteredMembers =
             [TokenDaoMember (Some ''0xw'') 9007199254740992 9007199254740992 (Some ''0xw'') []],
           daoToken = Some \<lparr>token_address = ''0xt'', decimals = 0\<rparr>\<rparr>,
        isLoading = False, isError = False\<rparr> \<and>
   (9007199254740992 :: rat) \<noteq> of_nat 9007199254740993 / 10 ^ 0"
  using Number_above_2_53
  by (simp add: useDaoMembers_def example_defs hook_defs formatUnits_def sort_by_single)

text \<open>
  Claim C2, amended. When the plugin is not gasless and the call is not count-only, the
  subgraph path is active, the subgraph member list is empty and the on-chain balance \<open>b\<close>
  (a \<open>uint256\<close>) of the connected wallet \<open>w\<close> in the DAO token (with \<open>uint8\<close> decimals) is
  positive, the members of the result are exactly one Token member with address \<open>w\<close>,
  delegatee \<open>w\<close>, no delegators, and balance and voting power both the number \<open>n\<close> that
  \<open>Number(formatUnits(b, decimals))\<close> gives: the double nearest to \<open>b\<close> scaled by the
  decimals. It is positive, within the relative error \<open>2 ^ -53\<close> of the scaled balance, and
  the balance itself when the token has no decimals and \<open>b < 2 ^ 53\<close>.
\<close>

theorem fallback_self_balance_member:
  assumes "pluginType \<noteq> Some GaslessPluginName" and "\<not> countOnly options"
    and "useSubgraph h pa pluginType options"
    and "subgraphData h pa pluginType options = []"
    and "useWallet h = Some w" and "useDaoToken h pa = Some tok"
    and "balanceOf h (token_address tok) w = Some b" and "0 < b"
    and "b < 2 ^ 256" and "decimals tok \<le> 255"
  shows "\<exists>r n. useDaoMembers h pa pluginType options = Inr r \<and>
           members (data r) = [TokenDaoMember (Some w) n n (Some w) []] \<and>
           n = Number b (10 ^ decimals tok) \<and> 0 < n \<and>
           \<bar>n - of_nat b / 10 ^ decimals tok\<bar> \<le> of_nat b / 10 ^ decimals tok / 2 ^ 53 \<and>
           (decimals tok = 0 \<and> b < 2 ^ 53 \<longrightarrow> n = of_nat b)"
proof -
  let ?n = "Number b (10 ^ decimals tok)"
  have q: "0 < (10::nat) ^ decimals tok" by simp
  have small: "(of_nat (10 ^ decimals tok) :: rat) \<le> of_nat b * 2 ^ 1022"
    using assms(10,8) by (rule uint8_decimals_bound)
  have "(of_nat b * 2 ^ 1022 :: rat) \<le> of_nat b * 2 ^ 1074"
    by (intro mult_left_mono power_increasing) simp_all
  with small have "(of_nat (10 ^ decimals tok) :: rat) \<le> of_nat b * 2 ^ 1074" by (rule order_trans)
  from Number_pos [OF assms(8) q this] have pos: "0 < ?n" .
  from Number_error [OF assms(8) q small]
  have err: "\<bar>?n - of_nat b / 10 ^ decimals tok\<bar> \<le> of_nat b / 10 ^ decimals tok / 2 ^ 53"
    by simp
  have exact: "decimals tok = 0 \<and> b < 2 ^ 53 \<longrightarrow> ?n = of_nat b"
    using Number_integer [of b] by auto
  have n: "userBalanceNumber h pa pluginType options = ?n"
    using assms(1,2,5,6,7) by (simp add: userBalanceNumber_onchain formatUnits_def)
  from fallback_sortedData [OF assms(3,4)] pos
  have "sortedData h pa pluginType options = [TokenDaoMember (Some w) ?n ?n (Some w) []]"
    by (simp add: n assms(5))
  with full_path [OF assms(1,2), of h pa] pos err exact show ?thesis by auto
qed

text \<open>The example of the spec: balance 150 with no decimals, on a network without the index.\<close>

theorem fallback_self_balance_member_witness:
  "\<exists>r. useDaoMembers
          (snapshot ''arbitrum'' (Some ''0xw'') (Some \<lparr>token_address = ''0xt'', decimals = 0\<rparr>)
             idle \<lparr>data = Some [], isLoading = False, isError = False\<rparr> no_census (Some 150))
          ''0xp'' (Some TokenVoting) None = Inr r \<and>
       members (data r) = [TokenDaoMember (Some ''0xw'') 150 150 (Some ''0xw'') []]"
proof -
  let ?h = "snapshot ''arbitrum'' (Some ''0xw'') (Some \<lparr>token_address = ''0xt'', decimals = 0\<rparr>)
             idle \<lparr>data = Some [], isLoading = False, isError = False\<rparr> no_census (Some 150)"
  let ?tok = "\<lparr>token_address = ''0xt'', decimals = 0\<rparr>"
  have 1: "Some TokenVoting \<noteq> Some GaslessPluginName" by (simp add: GaslessPluginName_def)
  have 2: "\<not> countOnly None" by (simp add: hook_defs)
  have 3: "useSubgraph ?h ''0xp'' (Some TokenVoting) None" by (simp add: example_defs hook_defs)
  have 4: "subgraphData ?h ''0xp'' (Some TokenVoting) None = []"
    by (simp add: example_defs hook_defs)
  have 5: "useWallet ?h = Some ''0xw''" "useDaoToken ?h ''0xp'' = Some ?tok"
    "balanceOf ?h (token_address ?tok) ''0xw'' = Some 150"
    by (simp_all add: example_defs)
  have 6: "(0::nat) < 150" "(150::nat) < 2 ^ 256" "decimals ?tok \<le> 255" by simp_all
  from fallback_self_balance_member [OF 1 2 3 4 5 6] obtain r n where
    "useDaoMembers ?h ''0xp'' (Some TokenVoting) None = Inr r"
    "members (data r) = [TokenDaoMember (Some ''0xw'') n n (Some ''0xw'') []]"
    "decimals ?tok = 0 \<and> (150::nat) < 2 ^ 53 \<longrightarrow> n = of_nat 150"
    by blast
  then show ?thesis by simp
qed

text \<open>
  Claim C3. The member normalised from the \<open>i\<close>-th holder of a graph-index page has that
  holder's address, and its delegators are the addresses, in page order, of the holders
  of the page whose address differs (case-insensitively) from the holder's and whose
  \<open>delegates\<close> field equals (case-insensitively) the holder's address; the holder's own
  address is not among them.
\<close>

theorem graphql_delegators:
  assumes "i < length (holders g)"
  shows "length (parsedGraphqlData (Some g) tok) = length (holders g) \<and>
         address (parsedGraphqlData (Some g) tok ! i) = Some (holder_address (holders g ! i)) \<and>
         delegators (parsedGraphqlData (Some g) tok ! i) =
           map holder_address
             (filter (\<lambda>other.
                  toLowerCase (holder_address other) \<noteq>
                    toLowerCase (holder_address (holders g ! i)) \<and>
                  toLowerCase (delegates other) = toLowerCase (holder_address (holders g ! i)))
                (holders g)) \<and>
         holder_address (holders g ! i) \<notin> set (delegators (parsedGraphqlData (Some g) tok ! i))"
  using assms by (auto simp: parsedGraphqlData_def Let_def compareAddresses_def)

text \<open>The example of the spec: holders \<open>[{A, delegates: B}, {B, delegates: B}]\<close>.\<close>

theorem graphql_delegators_witness:
  "delegators
     (parsedGraphqlData
        (Some \<lparr>holders =
                 [\<lparr>holder_address = ''0xA'', holder_balance = 7, votes = 0, delegates = ''0xb''\<rparr>,
                  \<lparr>holder_address = ''0xB'', holder_balance = 3, votes = 10, delegates = ''0xB''\<rparr>],
               totalHolders = 2\<rparr>)
        (Some \<lparr>token_address = ''0xt'', decimals = 0\<rparr>) ! 1) = [''0xA'']"
proof -
  let ?g = "\<lparr>holders =
                 [\<lparr>holder_address = ''0xA'', holder_balance = 7, votes = 0, delegates = ''0xb''\<rparr>,
                  \<lparr>holder_address = ''0xB'', holder_balance = 3, votes = 10, delegates = ''0xB''\<rparr>],
               totalHolders = 2\<rparr>"
  have l: "1 < length (holders ?g)" by simp
  have a: "toLowerCase ''0xA'' = ''0xa''" "toLowerCase ''0xB'' = ''0xb''"
    "toLowerCase ''0xb'' = ''0xb''"
    by code_simp+
  from graphql_delegators [OF l, of "Some \<lparr>token_address = ''0xt'', decimals = 0\<rparr>"]
  show ?thesis by (simp add: a)
qed




text \<open>
  Claim C5. Under the sort key \<open>delegations\<close>, for two Token members \<open>a\<close> and \<open>b\<close>, neither
  with the connected wallet's address nor with that address among its delegators: if \<open>a\<close>
  has strictly more delegators than \<open>b\<close>, or as many and a strictly higher voting power,
  the comparator is negative on \<open>(a, b)\<close> and positive on \<open>(b, a)\<close>, the sort puts \<open>a\<close>
  before \<open>b\<close> from either order, and in no sorted list of such members does \<open>b\<close> stand
  before \<open>a\<close>.
\<close>

theorem delegations_order:
  assumes "isTokenDaoMember a" "isTokenDaoMember b"
    and "\<not> compareAddresses (address a) u" "\<not> compareAddresses (address b) u"
    and "\<forall>d \<in> set (delegators a). \<not> compareAddresses (Some d) u"
    and "\<forall>d \<in> set (delegators b). \<not> compareAddresses (Some d) u"
    and "length (delegators a) > length (delegators b) \<or>
         (length (delegators a) = length (delegators b) \<and> votingPower a > votingPower b)"
  shows "sortDaoMembers (Some Delegations) u a b < 0 \<and>
         sortDaoMembers (Some Delegations) u b a > 0 \<and>
         sort_by (sortDaoMembers (Some Delegations) u) [a, b] = [a, b] \<and>
         sort_by (sortDaoMembers (Some Delegations) u) [b, a] = [a, b] \<and>
         (\<forall>ms pre mid post.
            (\<forall>m \<in> set ms. isTokenDaoMember m \<and> \<not> compareAddresses (address m) u \<and>
               (\<forall>d \<in> set (delegators m). \<not> compareAddresses (Some d) u)) \<longrightarrow>
            sort_by (sortDaoMembers (Some Delegations) u) ms \<noteq> pre @ b # mid @ a # post)"
proof -
  have ab: "sortDaoMembers (Some Delegations) u a b < 0"
    using assms by (auto simp: sortDaoMembers_def list_ex_iff Let_def)
  have ba: "sortDaoMembers (Some Delegations) u b a > 0"
    using assms by (auto simp: sortDaoMembers_def list_ex_iff Let_def)
  have pair: "sort_by (sortDaoMembers (Some Delegations) u) [a, b] = [a, b]"
    "sort_by (sortDaoMembers (Some Delegations) u) [b, a] = [a, b]"
    using ab ba by (simp_all add: sort_by_def)
  have "sort_by (sortDaoMembers (Some Delegations) u) ms \<noteq> pre @ b # mid @ a # post"
    if "\<forall>m \<in> set ms. isTokenDaoMember m \<and> \<not> compareAddresses (address m) u \<and>
               (\<forall>d \<in> set (delegators m). \<not> compareAddresses (Some d) u)"
    for ms pre mid post
    using never_after [OF delegations_sorted [OF that] ba] .
  with ab ba pair show ?thesis by blast
qed

theorem delegations_order_witness:
  "sort_by (sortDaoMembers (Some Delegations) (Some ''0x09''))
     [TokenDaoMember (Some ''0x02'') 5 5 (Some ''0x02'') [''0x05''],
      TokenDaoMember (Some ''0x01'') 1 1 (Some ''0x01'') [''0x03'', ''0x04'']] =
     [TokenDaoMember (Some ''0x01'') 1 1 (Some ''0x01'') [''0x03'', ''0x04''],
      TokenDaoMember (Some ''0x02'') 5 5 (Some ''0x02'') [''0x05'']]"
proof -
  let ?a = "TokenDaoMember (Some ''0x01'') 1 1 (Some ''0x01'') [''0x03'', ''0x04'']"
  let ?b = "TokenDaoMember (Some ''0x02'') 5 5 (Some ''0x02'') [''0x05'']"
  let ?u = "Some ''0x09''"
  have 1: "isTokenDaoMember ?a" "isTokenDaoMember ?b" by simp_all
  have 2: "\<not> compareAddresses (address ?a) ?u" "\<not> compareAddresses (address ?b) ?u"
    by code_simp+
  have 3: "\<forall>d \<in> set (delegators ?a). \<not> compareAddresses (Some d) ?u"
    by code_simp
  have 4: "\<forall>d \<in> set (delegators ?b). \<not> compareAddresses (Some d) ?u"
    by code_simp
  have 5: "length (delegators ?a) > length (delegators ?b) \<or>
         (length (delegators ?a) = length (delegators ?b) \<and> votingPower ?a > votingPower ?b)"
    by simp
  from delegations_order [OF 1 2 3 4 5] show ?thesis by blast
qed

text \<open>
  Claim C6, as stated, fails. Two Basic members with the addresses \<open>0xB\<close> and \<open>0xa\<close> are
  ordered \<open>0xB\<close> first, although \<open>0xa\<close> is the smaller address when case is ignored; and
  on a list that mixes Token and Basic members the comparator has a cycle, so it is not
  a total order.
\<close>

theorem comparator_is_case_sensitive_and_cyclic:
  "sortDaoMembers None None (MultisigDaoMember (Some ''0xB''))
      (MultisigDaoMember (Some ''0xa'')) < 0 \<and>
   toLowerCase ''0xa'' < toLowerCase ''0xB'' \<and>
   sortDaoMembers None None (TokenDaoMember (Some ''0xc'') 10 10 (Some ''0xc'') [])
      (TokenDaoMember (Some ''0xa'') 5 5 (Some ''0xa'') []) < 0 \<and>
   sortDaoMembers None None (TokenDaoMember (Some ''0xa'') 5 5 (Some ''0xa'') [])
      (MultisigDaoMember (Some ''0xb'')) < 0 \<and>
   sortDaoMembers None None (MultisigDaoMember (Some ''0xb''))
      (TokenDaoMember (Some ''0xc'') 10 10 (Some ''0xc'') []) < 0"
  by code_simp

text \<open>
  Claim C6, amended. For every sort key and connected address, when at least one of the
  two compared members is a Basic member and neither has the connected wallet's address,
  the comparator returns 1 if the address of \<open>a\<close> is strictly greater than the address of
  \<open>b\<close> in the case-sensitive lexicographic order and -1 otherwise, so that \<open>a\<close> is not put
  after \<open>b\<close> exactly when its address is at most that of \<open>b\<close>; a list of Basic members,
  none with the wallet's address, is sorted into ascending case-sensitive address order.
  Only the test against the connected wallet's address is case-insensitive: a member
  whose address equals the wallet's up to case compares as first.
\<close>

theorem comparator_address_order:
  assumes "address a = Some x" and "address b = Some y"
    and "\<not> compareAddresses (Some x) u" and "\<not> compareAddresses (Some y) u"
    and "\<not> isTokenDaoMember a \<or> \<not> isTokenDaoMember b"
  shows "sortDaoMembers k u a b = (if y < x then 1 else - 1) \<and>
         (sortDaoMembers k u a b \<le> 0 \<longleftrightarrow> x \<le> y) \<and>
         (\<forall>w. toLowerCase w = toLowerCase x \<longrightarrow> sortDaoMembers k (Some w) a b = - 1) \<and>
         (\<forall>ms. (\<forall>m \<in> set ms. \<not> isTokenDaoMember m \<and> address m \<noteq> None \<and>
                    \<not> compareAddresses (address m) u) \<longrightarrow>
            sorted_wrt (\<lambda>p q. \<exists>v w. address p = Some v \<and> address q = Some w \<and> v \<le> w)
              (sort_by (sortDaoMembers k u) ms))"
proof -
  have 1: "sortDaoMembers k u a b = (if y < x then 1 else - 1)"
    using assms by (rule address_compare)
  have 2: "\<forall>w. toLowerCase w = toLowerCase x \<longrightarrow> sortDaoMembers k (Some w) a b = - 1"
    using assms(1) by (simp add: connected_left compareAddresses_def)
  from 1 2 basic_sorted [of _ u k] show ?thesis by auto
qed

theorem comparator_address_order_witness:
  "sortDaoMembers (Some Delegations) (Some ''0xff'')
     (MultisigDaoMember (Some ''0xB''))
     (TokenDaoMember (Some ''0xa'') 5 5 (Some ''0xa'') []) = - 1 \<and>
   sortDaoMembers (Some Delegations) (Some ''0xff'')
     (TokenDaoMember (Some ''0xa'') 5 5 (Some ''0xa'') [])
     (MultisigDaoMember (Some ''0xB'')) = 1"
proof -
  let ?a = "MultisigDaoMember (Some ''0xB'')"
  let ?b = "TokenDaoMember (Some ''0xa'') 5 5 (Some ''0xa'') []"
  have 1: "address ?a = Some ''0xB''" "address ?b = Some ''0xa''" by simp_all
  have 2: "\<not> compareAddresses (Some ''0xB'') (Some ''0xff'')"
    "\<not> compareAddresses (Some ''0xa'') (Some ''0xff'')"
    by code_simp+
  have 3: "\<not> isTokenDaoMember ?a \<or> \<not> isTokenDaoMember ?b" by simp
  have 4: "\<not> isTokenDaoMember ?b \<or> \<not> isTokenDaoMember ?a" by simp
  have 5: "\<not> ''0xa'' < ''0xB''" "''0xB'' < ''0xa''" by simp_all
  from comparator_address_order [OF 1(1) 1(2) 2(1) 2(2) 3, of "Some Delegations"] 
  have a: "sortDaoMembers (Some Delegations) (Some ''0xff'') ?a ?b = (if ''0xa'' < ''0xB'' then 1 else - 1)"
    by blast
  from comparator_address_order [OF 1(2) 1(1) 2(2) 2(1) 4, of "Some Delegations"]
  have b: "sortDaoMembers (Some Delegations) (Some ''0xff'') ?b ?a = (if ''0xB'' < ''0xa'' then 1 else - 1)"
    by blast
  from a b 5 show ?thesis by simp
qed

text \<open>
  Claim C7. On the last return of the hook (plugin not gasless, not count-only) the hook
  returns an envelope whose \<open>filteredMembers\<close> is \<open>members\<close> itself when no search term is
  given, and otherwise \<open>members\<close> restricted to the members whose lower-cased address
  contains the lower-cased search term; in both cases a sublist of \<open>members\<close>.
\<close>

theorem filtered_members_restrict_members:
  assumes "pluginType \<noteq> Some GaslessPluginName" and "\<not> countOnly options"
  shows "\<exists>r. useDaoMembers h pa pluginType options = Inr r \<and>
           filteredMembers (data r) =
             (case opt_searchTerm (opts options) of
                None \<Rightarrow> members (data r)
              | Some t \<Rightarrow>
                  filter (\<lambda>m. case address m of None \<Rightarrow> False
                             | Some a \<Rightarrow> includes_str (toLowerCase a) (toLowerCase t))
                    (members (data r))) \<and>
           set (filteredMembers (data r)) \<subseteq> set (members (data r))"
  using assms
  by (auto simp: useDaoMembers_def enabled_always enableCensus3_iff GaslessPluginName_def
      filteredData_total split: option.splits)

text \<open>The example of the spec: the term \<open>0xAB\<close> matches \<open>0xabcdef\<close> and not \<open>0x1234\<close>.\<close>

theorem filtered_members_restrict_members_witness:
  "\<exists>r. useDaoMembers
          (snapshot ''ethereum'' None None idle
             \<lparr>data = Some [AddressString ''0xabcdef'', AddressString ''0x1234''],
              isLoading = False, isError = False\<rparr>
             no_census None)
          ''0xp'' (Some Multisig) (Some (options_with None None (Some ''0xAB''))) = Inr r \<and>
       members (data r) =
         [MultisigDaoMember (Some ''0xabcdef''), MultisigDaoMember (Some ''0x1234'')] \<and>
       filteredMembers (data r) = [MultisigDaoMember (Some ''0xabcdef'')]"
proof -
  let ?h = "snapshot ''ethereum'' None None idle
             \<lparr>data = Some [AddressString ''0xabcdef'', AddressString ''0x1234''],
              isLoading = False, isError = False\<rparr>
             no_census None"
  let ?o = "Some (options_with None None (Some ''0xAB''))"
  have 1: "Some Multisig \<noteq> Some GaslessPluginName" by (simp add: GaslessPluginName_def)
  have 2: "\<not> countOnly ?o" by (simp add: example_defs hook_defs)
  have 3: "includes_str (toLowerCase ''0xabcdef'') (toLowerCase ''0xAB'')"
    "\<not> includes_str (toLowerCase ''0x1234'') (toLowerCase ''0xAB'')"
    by code_simp+
  have 4: "useDaoMembers ?h ''0xp'' (Some Multisig) ?o = Inr r \<Longrightarrow>
      members (data r) =
         [MultisigDaoMember (Some ''0xabcdef''), MultisigDaoMember (Some ''0x1234'')]" for r
    by (auto simp: useDaoMembers_def example_defs hook_defs formatUnits_def
        split: sum.splits)
  from filtered_members_restrict_members [OF 1 2, of ?h "''0xp''"] obtain r where
    r: "useDaoMembers ?h ''0xp'' (Some Multisig) ?o = Inr r"
    and f: "filteredMembers (data r) =
             (case opt_searchTerm (opts ?o) of
                None \<Rightarrow> members (data r)
              | Some t \<Rightarrow>
                  filter (\<lambda>m. case address m of None \<Rightarrow> False
                             | Some a \<Rightarrow> includes_str (toLowerCase a) (toLowerCase t))
                    (members (data r)))"
    by blast
  have "filteredMembers (data r) = [MultisigDaoMember (Some ''0xabcdef'')]"
    using f 3 by (simp add: 4 [OF r] opts_def options_with_def)
  with r 4 [OF r] show ?thesis by blast
qed

text \<open>
  Claim C8. For a plugin that is not gasless, a call with \<open>options.countOnly = true\<close>
  returns an envelope with empty \<open>members\<close> and \<open>filteredMembers\<close>, the DAO token, and as
  \<open>memberCount\<close> the length of the normalised subgraph list when the subgraph path is
  active, and otherwise the total holder count reported by the graph-index service (zero
  when it has reported nothing).
\<close>

theorem count_only_envelope:
  assumes "pluginType \<noteq> Some GaslessPluginName" and "opt_countOnly opt = Some True"
  shows "\<exists>r. useDaoMembers h pa pluginType (Some opt) = Inr r \<and>
           members (data r) = [] \<and> filteredMembers (data r) = [] \<and>
           daoToken (data r) = useDaoToken h pa \<and>
           memberCount (data r) =
             (if useSubgraph h pa pluginType (Some opt)
              then length (parsedSubgraphData h pa pluginType (Some opt))
              else (case data (graphql h pa pluginType (Some opt)) of
                      None \<Rightarrow> 0 | Some g \<Rightarrow> totalHolders g))"
  using assms
  by (simp add: useDaoMembers_def enabled_always enableCensus3_iff GaslessPluginName_def
      countOnly_def opts_def js_or_def)

theorem count_only_envelope_witness:
  "\<exists>r. useDaoMembers
          (snapshot ''ethereum'' None (Some \<lparr>token_address = ''0xt'', decimals = 18\<rparr>)
             \<lparr>data = Some \<lparr>holders = [], totalHolders = 42\<rparr>, isLoading = False,
              isError = False\<rparr>
             idle no_census None)
          ''0xp'' (Some TokenVoting) (Some (options_with None (Some True) None)) = Inr r \<and>
       members (data r) = [] \<and> filteredMembers (data r) = [] \<and>
       daoToken (data r) = Some \<lparr>token_address = ''0xt'', decimals = 18\<rparr> \<and>
       memberCount (data r) = 42"
  using count_only_envelope [of "Some TokenVoting" "options_with None (Some True) None"
      "snapshot ''ethereum'' None (Some \<lparr>token_address = ''0xt'', decimals = 18\<rparr>)
             \<lparr>data = Some \<lparr>holders = [], totalHolders = 42\<rparr>, isLoading = False,
              isError = False\<rparr>
             idle no_census None" "''0xp''"]
  by (simp add: example_defs hook_defs)

text \<open>
  Claim C9. The hook always returns an envelope (no exception escapes it), and when the
  plugin is not gasless the envelope's \<open>isLoading\<close> is the conjunction of the loading
  flags of the subgraph query and of the graph-index query, and its \<open>isError\<close> the
  disjunction of their error flags.
\<close>

theorem flags_and_no_exception:
  "(\<exists>r. useDaoMembers h pa pluginType options = Inr r) \<and>
   (pluginType \<noteq> Some GaslessPluginName \<longrightarrow>
      (\<exists>r. useDaoMembers h pa pluginType options = Inr r \<and>
         isLoading r = (isLoading (subgraph h pa pluginType options) \<and>
                        isLoading (graphql h pa pluginType options)) \<and>
         isError r = (isError (subgraph h pa pluginType options) \<or>
                      isError (graphql h pa pluginType options))))"
  by (simp add: useDaoMembers_def enabled_always enableCensus3_iff GaslessPluginName_def
      filteredData_total)

theorem flags_and_no_exception_witness:
  "\<exists>r. useDaoMembers
          (snapshot ''ethereum'' None (Some \<lparr>token_address = ''0xt'', decimals = 18\<rparr>)
             \<lparr>data = None, isLoading = False, isError = True\<rparr>
             \<lparr>data = None, isLoading = True, isError = False\<rparr> no_census None)
          ''0xp'' (Some TokenVoting) None = Inr r \<and>
       \<not> isLoading r \<and> isError r"
  using flags_and_no_exception [of
      "snapshot ''ethereum'' None (Some \<lparr>token_address = ''0xt'', decimals = 18\<rparr>)
             \<lparr>data = None, isLoading = False, isError = True\<rparr>
             \<lparr>data = None, isLoading = True, isError = False\<rparr> no_census None"
      "''0xp''" "Some TokenVoting" None]
  by (simp add: example_defs hook_defs)

text \<open>
  Claim C10. On the last return of the hook with the subgraph path active, whenever the
  subgraph query has no data (it is loading or has errored, and the list defaults to the
  empty one) or has the empty list as data, and the scaled balance read for the connected
  wallet is positive, the members are the single fallback member of the wallet, whatever
  the loading and error flags of the queries are; the flags of the envelope are still
  the combination of those of the two queries.
\<close>

theorem fallback_while_loading_or_errored:
  assumes "pluginType \<noteq> Some GaslessPluginName" and "\<not> countOnly options"
    and "useSubgraph h pa pluginType options"
    and "data (subgraph h pa pluginType options) = None \<or>
         data (subgraph h pa pluginType options) = Some []"
    and "0 < userBalanceNumber h pa pluginType options"
  shows "\<exists>r. useDaoMembers h pa pluginType options = Inr r \<and>
           members (data r) =
             [TokenDaoMember (useWallet h) (userBalanceNumber h pa pluginType options)
                (userBalanceNumber h pa pluginType options) (useWallet h) []] \<and>
           useWallet h \<noteq> None \<and>
           isError r = (isError (subgraph h pa pluginType options) \<or>
                        isError (graphql h pa pluginType options)) \<and>
           isLoading r = (isLoading (subgraph h pa pluginType options) \<and>
                          isLoading (graphql h pa pluginType options))"
proof -
  have "subgraphData h pa pluginType options = []"
    using assms(4) by (auto simp: subgraphData_def)
  from fallback_sortedData [OF assms(3) this assms(5)] full_path [OF assms(1,2), of h pa]
    userBalanceNumber_pos_wallet [OF assms(5)]
  show ?thesis by auto
qed

text \<open>An errored, still loading subgraph query and a wallet holding 25 units at one decimal.\<close>

theorem fallback_while_loading_or_errored_witness:
  "\<exists>r. useDaoMembers
          (snapshot ''arbitrum'' (Some ''0xw'') (Some \<lparr>token_address = ''0xt'', decimals = 1\<rparr>)
             idle \<lparr>data = None, isLoading = True, isError = True\<rparr> no_census (Some 25))
          ''0xp'' (Some TokenVoting) None = Inr r \<and>
       members (data r) = [TokenDaoMember (Some ''0xw'') (5 / 2) (5 / 2) (Some ''0xw'') []] \<and>
       isError r \<and> \<not> isLoading r"
  using fallback_while_loading_or_errored [of "Some TokenVoting" None
      "snapshot ''arbitrum'' (Some ''0xw'') (Some \<lparr>token_address = ''0xt'', decimals = 1\<rparr>)
             idle \<lparr>data = None, isLoading = True, isError = True\<rparr> no_census (Some 25)"
      "''0xp''"]
  by (simp add: example_defs hook_defs formatUnits_def Number_5_halves)

end
